theory Spec2Isabelle
  imports Main "HOL-Library.AList"
begin

section \<open>Exceptions (exceptions/graph\_exceptions.py)\<close>

text \<open>
  Every \<^verbatim>\<open>raise\<close> of the core modules is a value. An exception is its class together
  with the message it is built with; the built-in exceptions that the code can meet
  (\<^verbatim>\<open>KeyError\<close>, \<^verbatim>\<open>IndexError\<close>, \<^verbatim>\<open>FileNotFoundError\<close>, any other \<^verbatim>\<open>OSError\<close>)
  are constructors of their own. The context dictionaries, which only feed the printed details, are left out,
  except for \<^verbatim>\<open>last_error\<close> and the cause quoted by "Error reading file".
\<close>

datatype edge_msg =
    Self_loops_are_not_allowed
  | Unexpected_error_adding_edge

datatype matrix_msg =
    Matrix_cannot_be_empty
  | Row_has_incorrect_length nat nat nat
  | Row_contains_invalid_values nat "int list"
  | Unexpected_error

datatype node_msg =
    Node_cannot_be_None
  | Node_ID_cannot_be_empty
  | Node_does_not_exist
  | Node_already_exists
  | Failed_to_add_node_after_attempts nat error
and file_msg =
    Invalid_value_in_line nat
  | File_not_found
  | Error_reading_file error
and error =
    NodeError node_msg
  | EdgeError edge_msg
  | InvalidMatrixError matrix_msg
  | FileReadError file_msg
  | KeyError
  | IndexError
  | FileNotFoundError
  | OSError

section \<open>The adjacency-list graph (core/graph\_tad.py)\<close>

text \<open>
  A node is what the caller passes: \<open>None\<close> is Python's \<^verbatim>\<open>None\<close>, \<open>Some s\<close> a string,
  whose characters are taken as code points below 256. \<^verbatim>\<open>adj_list\<close> is a dictionary, which
  keeps its keys in insertion order: an association list, assigned with
  \<^const>\<open>AList.update\<close> (in place for a key that is there, at the end for a new one).
\<close>

type_synonym node = "string option"
type_synonym graph = "(node \<times> node list) list"

definition MAX_RETRIES :: nat where
  "MAX_RETRIES = 3"

text \<open>\<^verbatim>\<open>str.isspace\<close> on one character, for the code points below 256.\<close>

definition isspace :: "char \<Rightarrow> bool" where
  "isspace c = ((of_char c :: nat) \<in> {9, 10, 11, 12, 13, 28, 29, 30, 31, 32, 133, 160})"

definition strip :: "string \<Rightarrow> string" where
  "strip s = rev (dropWhile isspace (rev (dropWhile isspace s)))"

definition keys :: "graph \<Rightarrow> node list" where
  "keys adj_list = map fst adj_list"

definition validate_node :: "node \<Rightarrow> bool \<Rightarrow> graph \<Rightarrow> error + unit" where
  "validate_node node check_exists adj_list =
     (case node of
        None \<Rightarrow> Inl (NodeError Node_cannot_be_None)
      | Some s \<Rightarrow>
          if strip s = [] then Inl (NodeError Node_ID_cannot_be_empty)
          else if check_exists \<and> node \<notin> set (keys adj_list)
            then Inl (NodeError Node_does_not_exist)
          else Inr ())"

definition is_empty :: "graph \<Rightarrow> bool" where
  "is_empty adj_list = (length adj_list = 0)"

text \<open>
  The \<^verbatim>\<open>while\<close> loop of \<^verbatim>\<open>add_node\<close>, with its two local variables. A mutating method
  returns its outcome together with the dictionary as the call leaves it.
\<close>

function add_node_loop ::
  "nat \<Rightarrow> error option \<Rightarrow> node \<Rightarrow> graph \<Rightarrow> (error + unit) \<times> graph" where
  "add_node_loop retries last_error node adj_list =
     (if retries < MAX_RETRIES then
        (case validate_node node False adj_list of
           Inl e \<Rightarrow> add_node_loop (retries + 1) (Some e) node adj_list
         | Inr _ \<Rightarrow>
             if node \<in> set (keys adj_list)
             then add_node_loop (retries + 1) (Some (NodeError Node_already_exists)) node adj_list
             else (Inr (), AList.update node [] adj_list))
      else
        (case last_error of
           Some e \<Rightarrow> (Inl (NodeError (Failed_to_add_node_after_attempts MAX_RETRIES e)), adj_list)
         | None \<Rightarrow> (Inr (), adj_list)))"
  by pat_completeness auto
termination
  by (relation "measure (\<lambda>(retries, last_error, node, adj_list). MAX_RETRIES - retries)") auto

definition add_node :: "node \<Rightarrow> graph \<Rightarrow> (error + unit) \<times> graph" where
  "add_node node adj_list = add_node_loop 0 None node adj_list"

text \<open>\<^verbatim>\<open>if node not in self.adj_list: self.add_node(node)\<close>, one round of the \<^verbatim>\<open>for\<close>.\<close>

definition add_if_missing :: "node \<Rightarrow> graph \<Rightarrow> (error + unit) \<times> graph" where
  "add_if_missing node adj_list =
     (if node \<notin> set (keys adj_list) then add_node node adj_list else (Inr (), adj_list))"

text \<open>
  \<^verbatim>\<open>if y not in self.adj_list[x]: self.adj_list[x].append(y)\<close>; the subscript raises
  \<^verbatim>\<open>KeyError\<close> on a missing key.
\<close>

definition append_if_absent :: "node \<Rightarrow> node \<Rightarrow> graph \<Rightarrow> (error + unit) \<times> graph" where
  "append_if_absent x y adj_list =
     (case map_of adj_list x of
        None \<Rightarrow> (Inl KeyError, adj_list)
      | Some neighbors \<Rightarrow>
          if y \<notin> set neighbors
          then (Inr (), AList.update x (neighbors @ [y]) adj_list)
          else (Inr (), adj_list))"

text \<open>
  The handlers of \<^verbatim>\<open>add_edge\<close>: a \<^verbatim>\<open>NodeError\<close> or \<^verbatim>\<open>EdgeError\<close> passes, anything else
  becomes the "Unexpected error adding edge" \<^verbatim>\<open>EdgeError\<close>.
\<close>

fun add_edge_handler :: "error \<Rightarrow> error" where
  "add_edge_handler (NodeError m) = NodeError m"
| "add_edge_handler (EdgeError m) = EdgeError m"
| "add_edge_handler e = EdgeError Unexpected_error_adding_edge"

definition add_edge_body :: "node \<Rightarrow> node \<Rightarrow> bool \<Rightarrow> graph \<Rightarrow> (error + unit) \<times> graph" where
  "add_edge_body from_node to_node bidirectional adj_list =
     (case validate_node from_node False adj_list of
        Inl e \<Rightarrow> (Inl e, adj_list)
      | Inr _ \<Rightarrow>
     (case validate_node to_node False adj_list of
        Inl e \<Rightarrow> (Inl e, adj_list)
      | Inr _ \<Rightarrow>
     if from_node = to_node then (Inl (EdgeError Self_loops_are_not_allowed), adj_list)
     else
     (case add_if_missing from_node adj_list of
        (Inl e, g1) \<Rightarrow> (Inl e, g1)
      | (Inr _, g1) \<Rightarrow>
     (case add_if_missing to_node g1 of
        (Inl e, g2) \<Rightarrow> (Inl e, g2)
      | (Inr _, g2) \<Rightarrow>
     (case append_if_absent from_node to_node g2 of
        (Inl e, g3) \<Rightarrow> (Inl e, g3)
      | (Inr _, g3) \<Rightarrow>
     if bidirectional then append_if_absent to_node from_node g3
     else (Inr (), g3))))))"

definition add_edge :: "node \<Rightarrow> node \<Rightarrow> bool \<Rightarrow> graph \<Rightarrow> (error + unit) \<times> graph" where
  "add_edge from_node to_node bidirectional adj_list =
     (case add_edge_body from_node to_node bidirectional adj_list of
        (Inl e, g) \<Rightarrow> (Inl (add_edge_handler e), g)
      | (Inr u, g) \<Rightarrow> (Inr u, g))"

text \<open>
  \<^verbatim>\<open>remove_node\<close>: the loop visits every entry and drops the first occurrence of the node
  from a list that holds it (\<^verbatim>\<open>list.remove\<close>); then the node's own entry is deleted.
\<close>

definition remove_from_lists :: "node \<Rightarrow> graph \<Rightarrow> graph" where
  "remove_from_lists node adj_list =
     map (\<lambda>(other_node, neighbors).
            (other_node, if node \<in> set neighbors then remove1 node neighbors else neighbors))
         adj_list"

definition remove_node :: "node \<Rightarrow> graph \<Rightarrow> (error + unit) \<times> graph" where
  "remove_node node adj_list =
     (case validate_node node True adj_list of
        Inl e \<Rightarrow> (Inl e, adj_list)
      | Inr _ \<Rightarrow> (Inr (), AList.delete node (remove_from_lists node adj_list)))"

definition get_nodes :: "graph \<Rightarrow> node set" where
  "get_nodes adj_list = set (keys adj_list)"

definition get_neighbors :: "node \<Rightarrow> graph \<Rightarrow> error + node list" where
  "get_neighbors node adj_list =
     (case validate_node node True adj_list of
        Inl e \<Rightarrow> Inl e
      | Inr _ \<Rightarrow> (case map_of adj_list node of None \<Rightarrow> Inl KeyError | Some neighbors \<Rightarrow> Inr neighbors))"

definition get_degree :: "node \<Rightarrow> graph \<Rightarrow> error + nat" where
  "get_degree node adj_list =
     (case validate_node node True adj_list of
        Inl e \<Rightarrow> Inl e
      | Inr _ \<Rightarrow> (case map_of adj_list node of None \<Rightarrow> Inl KeyError | Some neighbors \<Rightarrow> Inr (length neighbors)))"

text \<open>\<^verbatim>\<open>search_node\<close> catches \<^verbatim>\<open>NodeError\<close> only; any other exception would pass.\<close>

definition search_node :: "node \<Rightarrow> graph \<Rightarrow> error + bool" where
  "search_node node adj_list =
     (case validate_node node False adj_list of
        Inl (NodeError m) \<Rightarrow> Inr False
      | Inl e \<Rightarrow> Inl e
      | Inr _ \<Rightarrow> Inr (node \<in> set (keys adj_list)))"

text \<open>
  A session: the graph starts empty and changes through its three mutating methods only;
  the queries read \<^verbatim>\<open>adj_list\<close> and leave it as it is.
\<close>

datatype operation =
    Add_node node
  | Add_edge node node bool
  | Remove_node node
  | Get_neighbors node
  | Get_degree node
  | Search_node node
  | Get_nodes
  | Is_empty

fun apply_operation :: "operation \<Rightarrow> graph \<Rightarrow> graph" where
  "apply_operation (Add_node n) g = snd (add_node n g)"
| "apply_operation (Add_edge a b bidirectional) g = snd (add_edge a b bidirectional g)"
| "apply_operation (Remove_node n) g = snd (remove_node n g)"
| "apply_operation (Get_neighbors n) g = g"
| "apply_operation (Get_degree n) g = g"
| "apply_operation (Search_node n) g = g"
| "apply_operation Get_nodes g = g"
| "apply_operation Is_empty g = g"

definition run :: "operation list \<Rightarrow> graph" where
  "run ops = foldl (\<lambda>g operation. apply_operation operation g) [] ops"

subsection \<open>Well-formed dictionaries\<close>

text \<open>
  The conditions that every dictionary built by the methods meets: the keys are pairwise
  different (it is a dictionary), every neighbor list is free of duplicates, of its own
  key and of identities that are not keys; and every key has passed \<^const>\<open>validate_node\<close>.
\<close>

definition wf_graph :: "graph \<Rightarrow> bool" where
  "wf_graph g \<longleftrightarrow>
     distinct (keys g) \<and>
     (\<forall>k ns. map_of g k = Some ns \<longrightarrow> distinct ns \<and> k \<notin> set ns \<and> set ns \<subseteq> set (keys g))"

definition valid_keys :: "graph \<Rightarrow> bool" where
  "valid_keys g \<longleftrightarrow> (\<forall>k \<in> set (keys g). validate_node k False g = Inr ())"

text \<open>
  The dictionary that \<^const>\<open>add_edge\<close> leaves when none of its steps raises: the steps
  of \<^const>\<open>add_edge_body\<close> in their order.
\<close>

definition add_edge_result :: "node \<Rightarrow> node \<Rightarrow> bool \<Rightarrow> graph \<Rightarrow> graph" where
  "add_edge_result a b bidirectional g =
     (let g2 = snd (add_if_missing b (snd (add_if_missing a g)));
          g3 = snd (append_if_absent a b g2)
      in if bidirectional then snd (append_if_absent b a g3) else g3)"

section \<open>The adjacency matrix (core/matrix\_graph.py)\<close>

text \<open>
  A matrix is a list of rows of Python integers. \<^verbatim>\<open>validate_matrix\<close> walks the rows
  with their index; on lists of integers nothing but its own \<^verbatim>\<open>InvalidMatrixError\<close>
  can be raised in it, so its second handler has no case here.
\<close>

type_synonym matrix = "int list list"

fun validate_rows :: "nat \<Rightarrow> nat \<Rightarrow> matrix \<Rightarrow> error + unit" where
  "validate_rows size_n i [] = Inr ()"
| "validate_rows size_n i (row # rows) =
     (if length row \<noteq> size_n
        then Inl (InvalidMatrixError (Row_has_incorrect_length i (length row) size_n))
      else if \<not> list_all (\<lambda>x. x \<in> {0, 1}) row
        then Inl (InvalidMatrixError (Row_contains_invalid_values i (filter (\<lambda>x. x \<notin> {0, 1}) row)))
      else validate_rows size_n (i + 1) rows)"

definition validate_matrix :: "matrix \<Rightarrow> error + unit" where
  "validate_matrix matrix =
     (if matrix = [] then Inl (InvalidMatrixError Matrix_cannot_be_empty)
      else validate_rows (length matrix) 0 matrix)"

text \<open>
  \<^verbatim>\<open>DegreeInfo\<close> is an integer or the dictionary with the keys \<^verbatim>\<open>in_degree\<close> and
  \<^verbatim>\<open>out_degree\<close>. The result of \<^verbatim>\<open>calculate_degrees\<close> is a dictionary from index to
  \<^verbatim>\<open>DegreeInfo\<close>, in insertion order.
\<close>

datatype degree_info =
    Degree int
  | In_out (in_degree: int) (out_degree: int)

text \<open>Subscripts raise \<^verbatim>\<open>IndexError\<close> out of range.\<close>

definition row_at :: "matrix \<Rightarrow> nat \<Rightarrow> error + int list" where
  "row_at matrix i = (if i < length matrix then Inr (matrix ! i) else Inl IndexError)"

definition cell_at :: "matrix \<Rightarrow> nat \<Rightarrow> nat \<Rightarrow> error + int" where
  "cell_at matrix j i =
     (case row_at matrix j of
        Inl e \<Rightarrow> Inl e
      | Inr row \<Rightarrow> if i < length row then Inr (row ! i) else Inl IndexError)"

text \<open>\<^verbatim>\<open>sum(matrix[j][i] for j in range(num_nodes))\<close>, from an accumulator.\<close>

fun column_sum :: "matrix \<Rightarrow> nat \<Rightarrow> nat list \<Rightarrow> int \<Rightarrow> error + int" where
  "column_sum matrix i [] acc = Inr acc"
| "column_sum matrix i (j # js) acc =
     (case cell_at matrix j i of
        Inl e \<Rightarrow> Inl e
      | Inr x \<Rightarrow> column_sum matrix i js (acc + x))"

text \<open>The body of one round of either \<^verbatim>\<open>for\<close> loop: the value stored at \<open>i\<close>.\<close>

definition degree_at :: "matrix \<Rightarrow> bool \<Rightarrow> nat \<Rightarrow> nat \<Rightarrow> error + degree_info" where
  "degree_at matrix directed num_nodes i =
     (if \<not> directed then
        (case row_at matrix i of
           Inl e \<Rightarrow> Inl e
         | Inr row \<Rightarrow> Inr (Degree (sum_list row)))
      else
        (case row_at matrix i of
           Inl e \<Rightarrow> Inl e
         | Inr row \<Rightarrow>
             (case column_sum matrix i [0..<num_nodes] 0 of
                Inl e \<Rightarrow> Inl e
              | Inr in_deg \<Rightarrow> Inr (In_out in_deg (sum_list row)))))"

fun degrees_loop ::
  "matrix \<Rightarrow> bool \<Rightarrow> nat \<Rightarrow> nat list \<Rightarrow> (nat \<times> degree_info) list
     \<Rightarrow> error + (nat \<times> degree_info) list" where
  "degrees_loop matrix directed num_nodes [] degrees = Inr degrees"
| "degrees_loop matrix directed num_nodes (i # rest) degrees =
     (case degree_at matrix directed num_nodes i of
        Inl e \<Rightarrow> Inl e
      | Inr d \<Rightarrow> degrees_loop matrix directed num_nodes rest (AList.update i d degrees))"

text \<open>
  \<^verbatim>\<open>calculate_degrees\<close>: a \<^verbatim>\<open>GraphError\<close> of the validation passes through. An
  exception in the loops reaches the inner handler, whose
  \<^verbatim>\<open>InvalidMatrixError(..., context=...)\<close> is itself a \<^verbatim>\<open>TypeError\<close> (the class takes
  no \<^verbatim>\<open>context\<close>), so that the outer handler raises the "Unexpected error"
  \<^verbatim>\<open>InvalidMatrixError\<close>.
\<close>

definition calculate_degrees :: "matrix \<Rightarrow> bool \<Rightarrow> error + (nat \<times> degree_info) list" where
  "calculate_degrees matrix directed =
     (case validate_matrix matrix of
        Inl e \<Rightarrow> Inl e
      | Inr _ \<Rightarrow>
          (case degrees_loop matrix directed (length matrix) [0..<length matrix] [] of
             Inl e \<Rightarrow> Inl (InvalidMatrixError Unexpected_error)
           | Inr degrees \<Rightarrow> Inr degrees))"

subsection \<open>Loading a matrix from a text file\<close>

text \<open>
  What \<^verbatim>\<open>open\<close> and the reading meet at a path: no file, a file that cannot be read or
  decoded, or a text. Iterating a text file yields its lines: a line feed, a
  carriage return, and a carriage return with the line feed after it each end a line,
  and each is handed over as one line feed.
\<close>

datatype file_state = Missing | Unreadable | Text string

fun file_lines :: "string \<Rightarrow> string \<Rightarrow> string list" where
  "file_lines cur [] = (if cur = [] then [] else [rev cur])"
| "file_lines cur (c # cs) =
     (if c = CHR 0x0A then rev (CHR 0x0A # cur) # file_lines [] cs
      else if c = CHR 0x0D then
        (case cs of
           [] \<Rightarrow> [rev (CHR 0x0A # cur)]
         | d # ds \<Rightarrow>
             if d = CHR 0x0A then rev (CHR 0x0A # cur) # file_lines [] ds
             else rev (CHR 0x0A # cur) # file_lines [] cs)
      else file_lines (c # cur) cs)"

text \<open>\<^verbatim>\<open>str.split()\<close>: the maximal runs of characters that are not whitespace.\<close>

fun split_ws :: "string \<Rightarrow> string \<Rightarrow> string list" where
  "split_ws cur [] = (if cur = [] then [] else [rev cur])"
| "split_ws cur (c # cs) =
     (if isspace c then (if cur = [] then split_ws [] cs else rev cur # split_ws [] cs)
      else split_ws (c # cur) cs)"

text \<open>
  \<^verbatim>\<open>int(x)\<close> on a token without whitespace: an optional sign, then decimal digits,
  where single underscores may stand between digits. \<open>None\<close> is \<^verbatim>\<open>ValueError\<close>. (The
  interpreter's limit on the number of digits of a literal is left out.)
\<close>

definition is_digit :: "char \<Rightarrow> bool" where
  "is_digit c = (48 \<le> (of_char c :: nat) \<and> (of_char c :: nat) \<le> 57)"

definition digit_value :: "char \<Rightarrow> int" where
  "digit_value c = int (of_char c) - 48"

fun parse_digits :: "int \<Rightarrow> string \<Rightarrow> int option" where
  "parse_digits acc [] = Some acc"
| "parse_digits acc [c] = (if is_digit c then Some (10 * acc + digit_value c) else None)"
| "parse_digits acc (c # d # cs) =
     (if is_digit c then parse_digits (10 * acc + digit_value c) (d # cs)
      else if c = CHR ''_'' \<and> is_digit d then parse_digits (10 * acc + digit_value d) cs
      else None)"

definition parse_unsigned :: "string \<Rightarrow> int option" where
  "parse_unsigned s =
     (case s of
        [] \<Rightarrow> None
      | c # cs \<Rightarrow> if is_digit c then parse_digits (digit_value c) cs else None)"

definition py_int :: "string \<Rightarrow> int option" where
  "py_int s =
     (case s of
        [] \<Rightarrow> None
      | c # cs \<Rightarrow>
          if c = CHR ''-'' then map_option uminus (parse_unsigned cs)
          else if c = CHR ''+'' then parse_unsigned cs
          else parse_unsigned s)"

text \<open>The list comprehension \<^verbatim>\<open>[int(x) for x in ...]\<close>: the first failure ends it.\<close>

fun parse_row :: "string list \<Rightarrow> int list option" where
  "parse_row [] = Some []"
| "parse_row (x # xs) =
     (case py_int x of
        None \<Rightarrow> None
      | Some n \<Rightarrow> map_option ((#) n) (parse_row xs))"

fun read_lines :: "nat \<Rightarrow> string list \<Rightarrow> matrix \<Rightarrow> error + matrix" where
  "read_lines line_num [] matrix = Inr matrix"
| "read_lines line_num (line # rest) matrix =
     (let stripped_line = strip line in
      if stripped_line = [] then read_lines (line_num + 1) rest matrix
      else
        (case parse_row (split_ws [] stripped_line) of
           None \<Rightarrow> Inl (FileReadError (Invalid_value_in_line line_num))
         | Some row \<Rightarrow> read_lines (line_num + 1) rest (matrix @ [row])))"

definition load_body :: "(string \<Rightarrow> file_state) \<Rightarrow> string \<Rightarrow> error + matrix" where
  "load_body file_system file_path =
     (case file_system file_path of
        Missing \<Rightarrow> Inl FileNotFoundError
      | Unreadable \<Rightarrow> Inl OSError
      | Text contents \<Rightarrow>
          (case read_lines 1 (file_lines [] contents) [] of
             Inl e \<Rightarrow> Inl e
           | Inr matrix \<Rightarrow>
               (case validate_matrix matrix of
                  Inl e \<Rightarrow> Inl e
                | Inr _ \<Rightarrow> Inr matrix)))"

text \<open>
  The handlers of \<^verbatim>\<open>load_adjacency_matrix\<close>, in their order:
  \<^verbatim>\<open>except FileNotFoundError\<close>, then \<^verbatim>\<open>except Exception\<close>, which takes every other
  exception of the body, those of the module included.
\<close>

fun load_handler :: "error \<Rightarrow> error" where
  "load_handler FileNotFoundError = FileReadError File_not_found"
| "load_handler e = FileReadError (Error_reading_file e)"

definition load_adjacency_matrix :: "(string \<Rightarrow> file_state) \<Rightarrow> string \<Rightarrow> error + matrix" where
  "load_adjacency_matrix file_system file_path =
     (case load_body file_system file_path of
        Inl e \<Rightarrow> Inl (load_handler e)
      | Inr matrix \<Rightarrow> Inr matrix)"

section \<open>Properties of the graph methods\<close>

subsection \<open>The retry loop of add\_node\<close>

lemma add_node_loop_invalid:
  "validate_node node False g = Inl e \<Longrightarrow> retries < MAX_RETRIES \<Longrightarrow>
   add_node_loop retries last_error node g =
     (Inl (NodeError (Failed_to_add_node_after_attempts MAX_RETRIES e)), g)"
proof (induction retries last_error node g rule: add_node_loop.induct)
  case (1 retries last_error node adj_list)
  show ?case
  proof (cases "retries + 1 < MAX_RETRIES")
    case True
    with 1 show ?thesis by (subst add_node_loop.simps) simp
  next
    case False
    with 1 show ?thesis
      by (subst add_node_loop.simps, subst add_node_loop.simps) simp
  qed
qed

lemma add_node_loop_present:
  "validate_node node False g = Inr () \<Longrightarrow> node \<in> set (keys g) \<Longrightarrow> retries < MAX_RETRIES \<Longrightarrow>
   add_node_loop retries last_error node g =
     (Inl (NodeError (Failed_to_add_node_after_attempts MAX_RETRIES (NodeError Node_already_exists))), g)"
proof (induction retries last_error node g rule: add_node_loop.induct)
  case (1 retries last_error node adj_list)
  show ?case
  proof (cases "retries + 1 < MAX_RETRIES")
    case True
    with 1 show ?thesis by (subst add_node_loop.simps) simp
  next
    case False
    with 1 show ?thesis
      by (subst add_node_loop.simps, subst add_node_loop.simps) simp
  qed
qed

lemma add_node_loop_fresh:
  "validate_node node False g = Inr () \<Longrightarrow> node \<notin> set (keys g) \<Longrightarrow> retries < MAX_RETRIES \<Longrightarrow>
   add_node_loop retries last_error node g = (Inr (), AList.update node [] g)"
  by (subst add_node_loop.simps) simp

lemma validate_node_False:
  "validate_node node False g =
     (case node of None \<Rightarrow> Inl (NodeError Node_cannot_be_None)
      | Some s \<Rightarrow> if strip s = [] then Inl (NodeError Node_ID_cannot_be_empty) else Inr ())"
  by (simp add: validate_node_def split: option.splits)

lemma add_node_cases:
  "add_node node g =
     (case validate_node node False g of
        Inl e \<Rightarrow> (Inl (NodeError (Failed_to_add_node_after_attempts MAX_RETRIES e)), g)
      | Inr _ \<Rightarrow>
          if node \<in> set (keys g)
          then (Inl (NodeError (Failed_to_add_node_after_attempts MAX_RETRIES (NodeError Node_already_exists))), g)
          else (Inr (), AList.update node [] g))"
  by (auto simp: add_node_def MAX_RETRIES_def add_node_loop_invalid add_node_loop_present
        add_node_loop_fresh split: sum.splits)


subsection \<open>Well-formedness is kept\<close>

lemma update_fresh: "k \<notin> set (map fst al) \<Longrightarrow> AList.update k v al = al @ [(k, v)]"
  by (induction al) auto

lemma keys_iff_map_of: "k \<in> set (keys g) \<longleftrightarrow> map_of g k \<noteq> None"
  by (simp add: keys_def map_of_eq_None_iff)

lemma keys_update: "set (keys (AList.update k v g)) = insert k (set (keys g))"
  by (auto simp: keys_def update_keys)

lemma wf_graph_Nil: "wf_graph []"
  by (simp add: wf_graph_def keys_def)

lemma wf_graphD:
  "wf_graph g \<Longrightarrow> map_of g k = Some ns \<Longrightarrow>
   distinct ns \<and> k \<notin> set ns \<and> set ns \<subseteq> set (keys g)"
  unfolding wf_graph_def by blast

lemma wf_graph_new_node:
  assumes g: "wf_graph g" shows "wf_graph (AList.update node [] g)"
  unfolding wf_graph_def
proof (rule conjI, goal_cases)
  case 1
  have "distinct (keys g)" using g unfolding wf_graph_def by (rule conjunct1)
  then show ?case unfolding keys_def by (rule distinct_update)
next
  case 2
  show ?case
  proof (intro allI impI)
    fix k ns assume a: "map_of (AList.update node [] g) k = Some ns"
    show "distinct ns \<and> k \<notin> set ns \<and> set ns \<subseteq> set (keys (AList.update node [] g))"
    proof (cases "k = node")
      case True
      with a have "ns = []" by (simp add: update_conv')
      then show ?thesis by simp
    next
      case False
      with a have "map_of g k = Some ns" by (simp add: update_conv')
      from wf_graphD [OF g this] show ?thesis by (simp add: keys_update subset_insertI2)
    qed
  qed
qed

lemma wf_graph_add_node: "wf_graph g \<Longrightarrow> wf_graph (snd (add_node node g))"
  by (auto simp: add_node_cases wf_graph_new_node split: sum.splits)

lemma wf_graph_add_if_missing: "wf_graph g \<Longrightarrow> wf_graph (snd (add_if_missing node g))"
  by (simp add: add_if_missing_def wf_graph_add_node)

lemma wf_graph_extend:
  assumes g: "wf_graph g" and x: "map_of g x = Some ns"
    and y: "y \<in> set (keys g)" "x \<noteq> y" "y \<notin> set ns"
  shows "wf_graph (AList.update x (ns @ [y]) g)"
  unfolding wf_graph_def
proof (rule conjI, goal_cases)
  case 1
  have "distinct (keys g)" using g unfolding wf_graph_def by (rule conjunct1)
  then show ?case unfolding keys_def by (rule distinct_update)
next
  case 2
  show ?case
  proof (intro allI impI)
  fix k ms assume a: "map_of (AList.update x (ns @ [y]) g) k = Some ms"
  have old: "distinct ns \<and> x \<notin> set ns \<and> set ns \<subseteq> set (keys g)"
    using wf_graphD [OF g x] .
  show "distinct ms \<and> k \<notin> set ms \<and> set ms \<subseteq> set (keys (AList.update x (ns @ [y]) g))"
  proof (cases "k = x")
    case True
    with a have "ms = ns @ [y]" by (simp add: update_conv')
    with old y True show ?thesis by (simp add: keys_update subset_insertI2)
  next
    case False
    with a have "map_of g k = Some ms" by (simp add: update_conv')
    from wf_graphD [OF g this] show ?thesis by (simp add: keys_update subset_insertI2)
  qed
  qed
qed

lemma wf_graph_append:
  assumes "wf_graph g" "y \<in> set (keys g)" "x \<noteq> y"
  shows "wf_graph (snd (append_if_absent x y g))"
proof (cases "map_of g x")
  case None
  then show ?thesis using assms(1) by (simp add: append_if_absent_def)
next
  case (Some ns)
  show ?thesis
  proof (cases "y \<in> set ns")
    case True
    then show ?thesis using assms(1) Some by (simp add: append_if_absent_def)
  next
    case False
    from wf_graph_extend [OF assms(1) Some assms(2) assms(3) False] Some False
    show ?thesis by (simp add: append_if_absent_def)
  qed
qed

lemma keys_append_if_absent: "set (keys (snd (append_if_absent x y g))) = set (keys g)"
  by (auto simp: append_if_absent_def keys_update keys_iff_map_of split: option.splits)

lemma keys_add_if_missing_mono: "set (keys g) \<subseteq> set (keys (snd (add_if_missing node g)))"
  by (auto simp: add_if_missing_def add_node_cases keys_update split: sum.splits)

lemma valid_add_if_missing:
  "validate_node node False g = Inr () \<Longrightarrow>
   add_if_missing node g = (Inr (), if node \<in> set (keys g) then g else AList.update node [] g)"
  by (simp add: add_if_missing_def add_node_cases)

lemma validate_node_False_indep: "validate_node node False g = validate_node node False g'"
  by (simp add: validate_node_False)

lemma map_of_remove_from_lists:
  "map_of (remove_from_lists node g) k = map_option (remove1 node) (map_of g k)"
proof -
  have "remove_from_lists node g = map (\<lambda>(k, ns). (k, remove1 node ns)) g"
    by (auto simp: remove_from_lists_def remove1_idem)
  then show ?thesis by (simp add: map_of_map)
qed

lemma keys_remove_from_lists: "keys (remove_from_lists node g) = keys g"
  by (auto simp: keys_def remove_from_lists_def)

lemma keys_after_remove:
  "keys (AList.delete node (remove_from_lists node g)) = removeAll node (keys g)"
  using keys_remove_from_lists [of node g] by (simp add: keys_def delete_keys)

lemma map_of_after_remove:
  "map_of (AList.delete node (remove_from_lists node g)) x =
     (if x = node then None else map_option (remove1 node) (map_of g x))"
  by (simp add: delete_conv' map_of_remove_from_lists)

lemma wf_graph_after_remove:
  assumes "wf_graph g"
  shows "wf_graph (AList.delete node (remove_from_lists node g))"
  unfolding wf_graph_def
proof (intro conjI allI impI)
  have "distinct (keys g)" using assms unfolding wf_graph_def by (rule conjunct1)
  then show "distinct (keys (AList.delete node (remove_from_lists node g)))"
    unfolding keys_after_remove by (rule distinct_removeAll)
next
  fix x ms assume a: "map_of (AList.delete node (remove_from_lists node g)) x = Some ms"
  from a have xn: "x \<noteq> node"
    unfolding map_of_after_remove by (simp split: if_splits)
  from a xn obtain ns where ns: "map_of g x = Some ns" "ms = remove1 node ns"
    unfolding map_of_after_remove by (cases "map_of g x") auto
  from assms ns(1) have d: "distinct ns" "x \<notin> set ns" "set ns \<subseteq> set (keys g)"
    using wf_graphD [OF assms ns(1)] by simp_all
  show "distinct ms" using d(1) ns(2) by simp
  show "x \<notin> set ms" using d(2) ns(2) by (simp add: notin_set_remove1)
  have "set ms = set ns - {node}" using d(1) ns(2) by simp
  then show "set ms \<subseteq> set (keys (AList.delete node (remove_from_lists node g)))"
    unfolding keys_after_remove using d(3) by auto
qed

lemma wf_graph_remove_node: "wf_graph g \<Longrightarrow> wf_graph (snd (remove_node node g))"
  by (cases "validate_node node True g") (simp_all add: remove_node_def wf_graph_after_remove)

subsection \<open>Keys stay valid; the edge insertion step by step\<close>

lemma valid_keysD: "valid_keys g \<Longrightarrow> k \<in> set (keys g) \<Longrightarrow> validate_node k False g' = Inr ()"
  unfolding valid_keys_def using validate_node_False_indep [of k g' g] by simp

lemma valid_keysI: "(\<And>k. k \<in> set (keys g) \<Longrightarrow> validate_node k False g = Inr ()) \<Longrightarrow> valid_keys g"
  unfolding valid_keys_def by blast

lemma valid_keys_add_node: 
  assumes "valid_keys g" shows "valid_keys (snd (add_node node g))"
proof (cases "validate_node node False g")
  case (Inl e)
  then show ?thesis using assms by (simp add: add_node_cases)
next
  case (Inr u)
  show ?thesis
  proof (cases "node \<in> set (keys g)")
    case True
    then show ?thesis using assms Inr by (simp add: add_node_cases)
  next
    case False
    have "valid_keys (AList.update node [] g)"
    proof (rule valid_keysI)
      fix k assume "k \<in> set (keys (AList.update node [] g))"
      then have "k = node \<or> k \<in> set (keys g)" by (simp add: keys_update)
      then show "validate_node k False (AList.update node [] g) = Inr ()"
      proof
        assume "k = node"
        then show ?thesis using Inr validate_node_False_indep [of node "AList.update node [] g" g] by simp
      next
        assume "k \<in> set (keys g)"
        then show ?thesis using assms by (rule valid_keysD [rotated])
      qed
    qed
    then show ?thesis using False Inr by (simp add: add_node_cases)
  qed
qed

lemma valid_keys_subset:
  assumes "valid_keys g" "set (keys g') \<subseteq> set (keys g)" shows "valid_keys g'"
proof (rule valid_keysI)
  fix k assume "k \<in> set (keys g')"
  with assms(2) have "k \<in> set (keys g)" by blast
  with assms(1) show "validate_node k False g' = Inr ()" by (rule valid_keysD)
qed

lemma valid_keys_add_if_missing: "valid_keys g \<Longrightarrow> valid_keys (snd (add_if_missing node g))"
  by (simp add: add_if_missing_def valid_keys_add_node)

lemma valid_keys_append: "valid_keys g \<Longrightarrow> valid_keys (snd (append_if_absent x y g))"
  using valid_keys_subset [of g "snd (append_if_absent x y g)"] by (simp add: keys_append_if_absent)

lemma valid_keys_remove_node: "valid_keys g \<Longrightarrow> valid_keys (snd (remove_node node g))"
proof (cases "validate_node node True g")
  case (Inl e)
  assume "valid_keys g"
  then show ?thesis using Inl by (simp add: remove_node_def)
next
  case (Inr u)
  assume "valid_keys g"
  then have "valid_keys (AList.delete node (remove_from_lists node g))"
    by (rule valid_keys_subset) (simp add: keys_after_remove)
  then show ?thesis using Inr by (simp add: remove_node_def)
qed

lemma fst_append_if_absent: "x \<in> set (keys g) \<Longrightarrow> fst (append_if_absent x y g) = Inr ()"
  by (auto simp: append_if_absent_def keys_iff_map_of split: option.splits)

lemma fst_add_if_missing: "validate_node node False g = Inr () \<Longrightarrow> fst (add_if_missing node g) = Inr ()"
  by (simp add: valid_add_if_missing)

lemma key_add_if_missing: "validate_node node False g = Inr () \<Longrightarrow> node \<in> set (keys (snd (add_if_missing node g)))"
  by (simp add: valid_add_if_missing keys_update)

lemma add_edge_body_ok:
  assumes a: "validate_node a False g = Inr ()" and b: "validate_node b False g = Inr ()"
    and ab: "a \<noteq> b"
  shows "add_edge_body a b bidirectional g = (Inr (), add_edge_result a b bidirectional g)"
proof -
  obtain g1 where s1: "add_if_missing a g = (Inr (), g1)"
    using fst_add_if_missing [OF a] by (cases "add_if_missing a g") simp
  have b1: "validate_node b False g1 = Inr ()"
    using b validate_node_False_indep [of b g1 g] by simp
  obtain g2 where s2: "add_if_missing b g1 = (Inr (), g2)"
    using fst_add_if_missing [OF b1] by (cases "add_if_missing b g1") simp
  have "a \<in> set (keys g1)"
    using key_add_if_missing [OF a] s1 by simp
  then have ka: "a \<in> set (keys g2)"
    using keys_add_if_missing_mono [of g1 b] s2 by auto
  have kb: "b \<in> set (keys g2)"
    using key_add_if_missing [OF b1] s2 by simp
  obtain g3 where s3: "append_if_absent a b g2 = (Inr (), g3)"
    using fst_append_if_absent [OF ka, of b] by (cases "append_if_absent a b g2") simp
  have kb3: "b \<in> set (keys g3)"
    using kb keys_append_if_absent [of a b g2] s3 by simp
  obtain g4 where s4: "append_if_absent b a g3 = (Inr (), g4)"
    using fst_append_if_absent [OF kb3, of a] by (cases "append_if_absent b a g3") simp
  show ?thesis
    unfolding add_edge_body_def add_edge_result_def Let_def
    by (simp add: a b ab s1 s2 s3 s4)
qed

lemma add_edge_ok:
  assumes "validate_node a False g = Inr ()" "validate_node b False g = Inr ()" "a \<noteq> b"
  shows "add_edge a b bidirectional g = (Inr (), add_edge_result a b bidirectional g)"
  unfolding add_edge_def add_edge_body_ok [OF assms] by simp

lemma add_edge_fail:
  "validate_node a False g \<noteq> Inr () \<or> validate_node b False g \<noteq> Inr () \<or> a = b \<Longrightarrow>
   snd (add_edge a b bidirectional g) = g \<and> fst (add_edge a b bidirectional g) \<noteq> Inr ()"
  by (auto simp: add_edge_def add_edge_body_def split: sum.splits)

subsection \<open>Every session keeps the dictionary well formed\<close>

lemma wf_graph_add_edge: "wf_graph g \<Longrightarrow> wf_graph (snd (add_edge a b bidirectional g))"
proof (cases "validate_node a False g = Inr () \<and> validate_node b False g = Inr () \<and> a \<noteq> b")
  case False
  assume "wf_graph g"
  then show ?thesis using add_edge_fail [of a g b bidirectional] False by auto
next
  case True
  assume g: "wf_graph g"
  let ?g1 = "snd (add_if_missing a g)"
  let ?g2 = "snd (add_if_missing b ?g1)"
  let ?g3 = "snd (append_if_absent a b ?g2)"
  have b1: "validate_node b False ?g1 = Inr ()"
    using True validate_node_False_indep [of b ?g1 g] by simp
  have w2: "wf_graph ?g2" using g by (simp add: wf_graph_add_if_missing)
  have ka: "a \<in> set (keys ?g2)"
    using key_add_if_missing [of a g] keys_add_if_missing_mono [of ?g1 b] True by blast
  have kb: "b \<in> set (keys ?g2)"
    using key_add_if_missing [OF b1] .
  have w3: "wf_graph ?g3"
    using wf_graph_append [OF w2 kb, of a] True by simp
  have ka3: "a \<in> set (keys ?g3)" using ka by (simp add: keys_append_if_absent)
  have w4: "wf_graph (snd (append_if_absent b a ?g3))"
    using wf_graph_append [OF w3 ka3, of b] True by auto
  show ?thesis
    using True w3 w4 by (simp add: add_edge_ok add_edge_result_def Let_def)
qed

lemma valid_keys_add_edge: "valid_keys g \<Longrightarrow> valid_keys (snd (add_edge a b bidirectional g))"
proof (cases "validate_node a False g = Inr () \<and> validate_node b False g = Inr () \<and> a \<noteq> b")
  case False
  assume "valid_keys g"
  then show ?thesis using add_edge_fail [of a g b bidirectional] False by auto
next
  case True
  assume "valid_keys g"
  then show ?thesis
    using True
    by (simp add: add_edge_ok add_edge_result_def Let_def valid_keys_append valid_keys_add_if_missing)
qed

lemma wf_graph_apply: "wf_graph g \<Longrightarrow> wf_graph (apply_operation operation g)"
  by (cases operation) (simp_all add: wf_graph_add_node wf_graph_add_edge wf_graph_remove_node)

lemma valid_keys_apply: "valid_keys g \<Longrightarrow> valid_keys (apply_operation operation g)"
  by (cases operation) (simp_all add: valid_keys_add_node valid_keys_add_edge valid_keys_remove_node)

lemma run_snoc: "run (ops @ [operation]) = apply_operation operation (run ops)"
  by (simp add: run_def)

lemma wf_graph_run: "wf_graph (run ops)"
  by (induction ops rule: rev_induct) (simp_all add: run_snoc wf_graph_apply, simp add: run_def wf_graph_Nil)

lemma valid_keys_run: "valid_keys (run ops)"
  by (induction ops rule: rev_induct) (simp_all add: run_snoc valid_keys_apply, simp add: run_def valid_keys_def keys_def)

lemma entry_lookup: "wf_graph g \<Longrightarrow> (k, ns) \<in> set g \<Longrightarrow> map_of g k = Some ns"
  unfolding wf_graph_def keys_def by simp

section \<open>The claims about the graph\<close>

text \<open>
  Claim C3. Start from the empty graph and run any sequence of \<^verbatim>\<open>add_node\<close>,
  \<^verbatim>\<open>add_edge\<close>, \<^verbatim>\<open>remove_node\<close> and queries, failing calls included. In the
  dictionary that results, every entry \<open>(k, ns)\<close> has a neighbor list \<open>ns\<close> whose
  members are all keys of the dictionary (no dangling reference), which does not hold
  \<open>k\<close> itself (no self-loop) and which has no duplicate.
\<close>

theorem invariants_of_every_session:
  "(k, ns) \<in> set (run ops) \<Longrightarrow>
     set ns \<subseteq> get_nodes (run ops) \<and> k \<notin> set ns \<and> distinct ns"
  using wf_graphD [OF wf_graph_run entry_lookup [OF wf_graph_run]] by (simp add: get_nodes_def)

theorem invariants_of_every_session_witness:
  "(Some ''c'', [Some ''a'']) \<in> set (run [Add_edge (Some ''a'') (Some ''b'') True, Add_node (Some ''c''),
        Add_edge (Some ''c'') (Some ''a'') False, Remove_node (Some ''b'')])
   \<and> set [Some ''a''] \<subseteq> get_nodes (run [Add_edge (Some ''a'') (Some ''b'') True, Add_node (Some ''c''),
        Add_edge (Some ''c'') (Some ''a'') False, Remove_node (Some ''b'')])
   \<and> Some ''c'' \<notin> set [Some ''a''] \<and> distinct [Some ''a'']"
proof -
  have h: "(Some ''c'', [Some ''a'']) \<in> set (run [Add_edge (Some ''a'') (Some ''b'') True, Add_node (Some ''c''),
        Add_edge (Some ''c'') (Some ''a'') False, Remove_node (Some ''b'')])"
    by code_simp
  from invariants_of_every_session [OF h] h show ?thesis by blast
qed

lemma search_node_eq:
  "search_node a g = Inr (case a of None \<Rightarrow> False | Some s \<Rightarrow> strip s \<noteq> [] \<and> a \<in> get_nodes g)"
  by (simp add: search_node_def validate_node_False get_nodes_def split: option.splits)

text \<open>
  Claim C9. \<^verbatim>\<open>search_node\<close> never raises: for every argument and every dictionary it
  returns a boolean, which is false for \<^verbatim>\<open>None\<close>, for a blank identity and for an
  identity that is not a key, and true exactly for a non-blank identity that is a key.
\<close>

theorem search_node_total:
  "search_node a g = Inr (case a of None \<Rightarrow> False | Some s \<Rightarrow> strip s \<noteq> [] \<and> a \<in> get_nodes g)"
  by (rule search_node_eq)

lemma add_node_fail_unchanged: "fst (add_node n g) = Inl e \<Longrightarrow> snd (add_node n g) = g"
  by (auto simp: add_node_cases split: sum.splits if_splits)

lemma add_edge_fail_unchanged:
  "fst (add_edge a b bidirectional g) = Inl e \<Longrightarrow> snd (add_edge a b bidirectional g) = g"
proof (cases "validate_node a False g = Inr () \<and> validate_node b False g = Inr () \<and> a \<noteq> b")
  case True
  assume "fst (add_edge a b bidirectional g) = Inl e"
  then show ?thesis using True by (simp add: add_edge_ok)
next
  case False
  then show ?thesis using add_edge_fail [of a g b bidirectional] by blast
qed

lemma remove_node_fail_unchanged: "fst (remove_node n g) = Inl e \<Longrightarrow> snd (remove_node n g) = g"
  by (auto simp: remove_node_def split: sum.splits)

text \<open>
  Claim C10. A mutating method that raises leaves the dictionary as it was: whenever
  \<^verbatim>\<open>add_node\<close>, \<^verbatim>\<open>add_edge\<close> or \<^verbatim>\<open>remove_node\<close> ends with an exception, the
  dictionary after the call is the dictionary before it.
\<close>

theorem failed_mutation_changes_nothing:
  "(fst (add_node n g) = Inl e1 \<longrightarrow> snd (add_node n g) = g) \<and>
   (fst (add_edge a b bidirectional g) = Inl e2 \<longrightarrow> snd (add_edge a b bidirectional g) = g) \<and>
   (fst (remove_node m g) = Inl e3 \<longrightarrow> snd (remove_node m g) = g)"
  using add_node_fail_unchanged add_edge_fail_unchanged remove_node_fail_unchanged by blast

theorem failed_mutation_changes_nothing_witness:
  "fst (add_node (Some ''a'') [(Some ''a'', [Some ''b'']), (Some ''b'', [])])
     = Inl (NodeError (Failed_to_add_node_after_attempts 3 (NodeError Node_already_exists))) \<and>
   snd (add_node (Some ''a'') [(Some ''a'', [Some ''b'']), (Some ''b'', [])])
     = [(Some ''a'', [Some ''b'']), (Some ''b'', [])] \<and>
   fst (add_edge (Some ''a'') None False [(Some ''a'', [Some ''b'']), (Some ''b'', [])])
     = Inl (NodeError Node_cannot_be_None) \<and>
   snd (add_edge (Some ''a'') None False [(Some ''a'', [Some ''b'']), (Some ''b'', [])])
     = [(Some ''a'', [Some ''b'']), (Some ''b'', [])] \<and>
   fst (remove_node (Some ''c'') [(Some ''a'', [Some ''b'']), (Some ''b'', [])])
     = Inl (NodeError Node_does_not_exist) \<and>
   snd (remove_node (Some ''c'') [(Some ''a'', [Some ''b'']), (Some ''b'', [])])
     = [(Some ''a'', [Some ''b'']), (Some ''b'', [])]"
proof -
  let ?g = "[(Some ''a'', [Some ''b'']), (Some ''b'', [])] :: graph"
  have h1: "fst (add_node (Some ''a'') ?g)
     = Inl (NodeError (Failed_to_add_node_after_attempts 3 (NodeError Node_already_exists)))"
    by code_simp
  have h2: "fst (add_edge (Some ''a'') None False ?g) = Inl (NodeError Node_cannot_be_None)"
    by code_simp
  have h3: "fst (remove_node (Some ''c'') ?g) = Inl (NodeError Node_does_not_exist)"
    by code_simp
  from failed_mutation_changes_nothing
    [of "Some ''a''" ?g _ "Some ''a''" None False _ "Some ''c''"] h1 h2 h3
  show ?thesis by simp
qed

lemma valid_node: "strip s \<noteq> [] \<Longrightarrow> validate_node (Some s) False g = Inr ()"
  by (simp add: validate_node_False)

lemma lookup_new_node: "a \<notin> set (keys g) \<Longrightarrow> map_of (g @ [(a, [])]) a = Some []"
  by (simp add: keys_def map_of_eq_None_iff map_add_Some_iff)

text \<open>
  Claim C6, as stated, asks the second of two \<^verbatim>\<open>add_node(a)\<close> calls to fail with the
  "Node already exists" error. The retry loop catches that error three times and then
  raises another \<^verbatim>\<open>NodeError\<close>, "Failed to add node after 3 attempts", that quotes it
  as its last error.
\<close>

theorem add_node_twice_counterexample:
  "fst (add_node (Some ''a'') (snd (add_node (Some ''a'') []))) \<noteq> Inl (NodeError Node_already_exists)"
  by code_simp

text \<open>
  Claim C6, amended. \<^verbatim>\<open>add_node(a)\<close> fails, leaving the dictionary unchanged, with the
  \<^verbatim>\<open>NodeError\<close> "Failed to add node after 3 attempts" whose last error is the
  \<^verbatim>\<open>NodeError\<close> of the cause: "Node cannot be None", "Node ID cannot be empty" for a
  blank identity, "Node already exists" for a key of the dictionary. Otherwise it succeeds
  and appends the entry of \<open>a\<close> with an empty neighbor list; then \<^verbatim>\<open>search_node(a)\<close>
  is true, the neighbors are empty and the degree is 0, and a second \<^verbatim>\<open>add_node(a)\<close>
  fails in the way described, with "Node already exists" as last error.
\<close>

theorem add_node_outcome:
  "(a = None \<longrightarrow>
      add_node a g =
        (Inl (NodeError (Failed_to_add_node_after_attempts MAX_RETRIES (NodeError Node_cannot_be_None))), g)) \<and>
   (a = Some s \<and> strip s = [] \<longrightarrow>
      add_node a g =
        (Inl (NodeError (Failed_to_add_node_after_attempts MAX_RETRIES (NodeError Node_ID_cannot_be_empty))), g)) \<and>
   (a = Some s \<and> strip s \<noteq> [] \<and> a \<in> get_nodes g \<longrightarrow>
      add_node a g =
        (Inl (NodeError (Failed_to_add_node_after_attempts MAX_RETRIES (NodeError Node_already_exists))), g)) \<and>
   (a = Some s \<and> strip s \<noteq> [] \<and> a \<notin> get_nodes g \<longrightarrow>
      add_node a g = (Inr (), g @ [(a, [])]) \<and>
      search_node a (g @ [(a, [])]) = Inr True \<and>
      get_neighbors a (g @ [(a, [])]) = Inr [] \<and>
      get_degree a (g @ [(a, [])]) = Inr 0 \<and>
      add_node a (g @ [(a, [])]) =
        (Inl (NodeError (Failed_to_add_node_after_attempts MAX_RETRIES (NodeError Node_already_exists))),
         g @ [(a, [])]))"
proof (intro conjI impI)
  assume "a = None"
  then show "add_node a g =
        (Inl (NodeError (Failed_to_add_node_after_attempts MAX_RETRIES (NodeError Node_cannot_be_None))), g)"
    by (simp add: add_node_cases validate_node_False)
next
  assume "a = Some s \<and> strip s = []"
  then show "add_node a g =
        (Inl (NodeError (Failed_to_add_node_after_attempts MAX_RETRIES (NodeError Node_ID_cannot_be_empty))), g)"
    by (simp add: add_node_cases validate_node_False)
next
  assume "a = Some s \<and> strip s \<noteq> [] \<and> a \<in> get_nodes g"
  then show "add_node a g =
        (Inl (NodeError (Failed_to_add_node_after_attempts MAX_RETRIES (NodeError Node_already_exists))), g)"
    by (auto simp: add_node_cases validate_node_False get_nodes_def)
next
  assume h: "a = Some s \<and> strip s \<noteq> [] \<and> a \<notin> get_nodes g"
  then have fresh: "a \<notin> set (keys g)" and v: "\<And>g'. validate_node a False g' = Inr ()"
    by (auto simp: get_nodes_def valid_node)
  have k: "a \<in> set (keys (g @ [(a, [])]))" by (simp add: keys_def)
  have vt: "validate_node a True (g @ [(a, [])]) = Inr ()"
    using h k by (auto simp: validate_node_def)
  show "add_node a g = (Inr (), g @ [(a, [])])"
    using fresh v by (simp add: add_node_cases update_fresh keys_def)
  show "search_node a (g @ [(a, [])]) = Inr True"
    using h k by (auto simp: search_node_eq get_nodes_def)
  show "get_neighbors a (g @ [(a, [])]) = Inr []"
    using vt lookup_new_node [OF fresh] by (simp add: get_neighbors_def)
  show "get_degree a (g @ [(a, [])]) = Inr 0"
    using vt lookup_new_node [OF fresh] by (simp add: get_degree_def)
  show "add_node a (g @ [(a, [])]) =
        (Inl (NodeError (Failed_to_add_node_after_attempts MAX_RETRIES (NodeError Node_already_exists))),
         g @ [(a, [])])"
    using k v by (simp add: add_node_cases)
qed

theorem add_node_outcome_witness:
  "add_node None [(Some ''a'', [])] =
     (Inl (NodeError (Failed_to_add_node_after_attempts MAX_RETRIES (NodeError Node_cannot_be_None))),
      [(Some ''a'', [])]) \<and>
   add_node (Some '' '') [(Some ''a'', [])] =
     (Inl (NodeError (Failed_to_add_node_after_attempts MAX_RETRIES (NodeError Node_ID_cannot_be_empty))),
      [(Some ''a'', [])]) \<and>
   add_node (Some ''a'') [(Some ''a'', [])] =
     (Inl (NodeError (Failed_to_add_node_after_attempts MAX_RETRIES (NodeError Node_already_exists))),
      [(Some ''a'', [])]) \<and>
   add_node (Some ''b'') [(Some ''a'', [])] = (Inr (), [(Some ''a'', []), (Some ''b'', [])]) \<and>
   search_node (Some ''b'') [(Some ''a'', []), (Some ''b'', [])] = Inr True \<and>
   get_degree (Some ''b'') [(Some ''a'', []), (Some ''b'', [])] = Inr 0 \<and>
   add_node (Some ''b'') [(Some ''a'', []), (Some ''b'', [])] =
     (Inl (NodeError (Failed_to_add_node_after_attempts MAX_RETRIES (NodeError Node_already_exists))),
      [(Some ''a'', []), (Some ''b'', [])])"
proof -
  let ?g = "[(Some ''a'', [])] :: graph"
  have blank: "strip '' '' = []" by code_simp
  have a: "strip ''a'' \<noteq> []" "Some ''a'' \<in> get_nodes ?g" by code_simp+
  have b: "strip ''b'' \<noteq> []" "Some ''b'' \<notin> get_nodes ?g" by code_simp+
  from add_node_outcome [of None ?g] add_node_outcome [of "Some '' ''" ?g "'' ''"]
    add_node_outcome [of "Some ''a''" ?g "''a''"] add_node_outcome [of "Some ''b''" ?g "''b''"]
    blank a b
  show ?thesis by simp
qed

text \<open>
  Claim C2, as stated, includes blank identities. \<^verbatim>\<open>add_edge\<close> validates both nodes
  before it compares them, so a blank identity is rejected with a \<^verbatim>\<open>NodeError\<close>.
\<close>

theorem self_loop_blank_counterexample:
  "fst (add_edge (Some '' '') (Some '' '') True []) = Inl (NodeError Node_ID_cannot_be_empty) \<and>
   fst (add_edge (Some '' '') (Some '' '') True []) \<noteq> Inl (EdgeError Self_loops_are_not_allowed)"
  by code_simp

text \<open>
  Claim C2, amended. For every non-blank identity \<open>a\<close> and either value of the flag,
  \<^verbatim>\<open>add_edge(a, a, bidirectional)\<close> fails with the \<^verbatim>\<open>EdgeError\<close> "Self loops are not
  allowed" and changes nothing; for a blank identity and for \<^verbatim>\<open>None\<close> it fails with
  the \<^verbatim>\<open>NodeError\<close> of the validation instead.
\<close>

theorem add_edge_self_loop:
  "(a = Some s \<and> strip s \<noteq> [] \<longrightarrow>
      add_edge a a bidirectional g = (Inl (EdgeError Self_loops_are_not_allowed), g)) \<and>
   (a = Some s \<and> strip s = [] \<longrightarrow>
      add_edge a a bidirectional g = (Inl (NodeError Node_ID_cannot_be_empty), g)) \<and>
   (a = None \<longrightarrow>
      add_edge a a bidirectional g = (Inl (NodeError Node_cannot_be_None), g))"
  by (simp add: add_edge_def add_edge_body_def validate_node_False)

theorem add_edge_self_loop_witness:
  "add_edge (Some ''a'') (Some ''a'') True [(Some ''a'', [])] =
     (Inl (EdgeError Self_loops_are_not_allowed), [(Some ''a'', [])]) \<and>
   add_edge (Some '' '') (Some '' '') False [(Some ''a'', [])] =
     (Inl (NodeError Node_ID_cannot_be_empty), [(Some ''a'', [])]) \<and>
   add_edge None None True [(Some ''a'', [])] =
     (Inl (NodeError Node_cannot_be_None), [(Some ''a'', [])])"
proof -
  let ?g = "[(Some ''a'', [])] :: graph"
  have blank: "strip '' '' = []" by code_simp
  have a: "strip ''a'' \<noteq> []" by code_simp
  from add_edge_self_loop [of "Some ''a''" "''a''" True ?g]
    add_edge_self_loop [of "Some '' ''" "'' ''" False ?g]
    add_edge_self_loop [of None _ True ?g] blank a
  show ?thesis by simp
qed

lemma lookup_add_if_missing:
  "validate_node n False g = Inr () \<Longrightarrow>
   map_of (snd (add_if_missing n g)) k = (if k = n \<and> map_of g n = None then Some [] else map_of g k)"
  by (auto simp: valid_add_if_missing keys_iff_map_of update_conv')

lemma lookup_append_if_absent:
  "map_of (snd (append_if_absent x y g)) k =
     (if k = x then map_option (\<lambda>ns. if y \<in> set ns then ns else ns @ [y]) (map_of g x)
      else map_of g k)"
  by (auto simp: append_if_absent_def update_conv' split: option.splits)

lemma get_neighbors_valid:
  "strip s \<noteq> [] \<Longrightarrow>
   get_neighbors (Some s) g =
     (case map_of g (Some s) of None \<Rightarrow> Inl (NodeError Node_does_not_exist) | Some ns \<Rightarrow> Inr ns)"
  by (auto simp: get_neighbors_def validate_node_def keys_iff_map_of split: option.splits)

lemma lookup_result_from:
  assumes "validate_node a False g = Inr ()" "validate_node b False g = Inr ()" "a \<noteq> b"
  shows "\<exists>ns. map_of (add_edge_result a b bidirectional g) a = Some ns \<and> b \<in> set ns"
proof -
  have b1: "validate_node b False (snd (add_if_missing a g)) = Inr ()"
    using assms(2) validate_node_False_indep [of b "snd (add_if_missing a g)" g] by simp
  show ?thesis
    unfolding add_edge_result_def Let_def
    using assms(3)
    by (cases "map_of g a")
       (simp_all add: lookup_append_if_absent lookup_add_if_missing [OF b1]
          lookup_add_if_missing [OF assms(1)])
qed

lemma lookup_result_to:
  assumes "validate_node a False g = Inr ()" "validate_node b False g = Inr ()" "a \<noteq> b"
  shows "\<exists>ms. map_of (add_edge_result a b bidirectional g) b = Some ms \<and>
     (a \<in> set ms \<longleftrightarrow> bidirectional \<or> (\<exists>ms0. map_of g b = Some ms0 \<and> a \<in> set ms0))"
proof -
  have b1: "validate_node b False (snd (add_if_missing a g)) = Inr ()"
    using assms(2) validate_node_False_indep [of b "snd (add_if_missing a g)" g] by simp
  show ?thesis
    unfolding add_edge_result_def Let_def
    using assms(3)
    by (cases "map_of g b")
       (auto simp: lookup_append_if_absent lookup_add_if_missing [OF b1]
          lookup_add_if_missing [OF assms(1)])
qed

text \<open>
  Claim C4. Let \<open>a\<close> and \<open>b\<close> be different non-blank identities and \<open>g\<close> any
  dictionary, with or without them as keys. \<^verbatim>\<open>add_edge(a, b, True)\<close> succeeds, and
  afterwards \<open>b\<close> is a neighbor of \<open>a\<close> and \<open>a\<close> a neighbor of \<open>b\<close>.
  \<^verbatim>\<open>add_edge(a, b, False)\<close> succeeds, afterwards \<open>b\<close> is a neighbor of \<open>a\<close>, and
  \<open>a\<close> is a neighbor of \<open>b\<close> only if it was one before the call.
\<close>

theorem add_edge_links:
  assumes "a = Some s" "strip s \<noteq> []" "b = Some t" "strip t \<noteq> []" "a \<noteq> b"
  shows "(\<exists>g'. add_edge a b True g = (Inr (), g') \<and>
            (\<exists>ns. get_neighbors a g' = Inr ns \<and> b \<in> set ns) \<and>
            (\<exists>ms. get_neighbors b g' = Inr ms \<and> a \<in> set ms)) \<and>
         (\<exists>g'. add_edge a b False g = (Inr (), g') \<and>
            (\<exists>ns. get_neighbors a g' = Inr ns \<and> b \<in> set ns) \<and>
            (\<exists>ms. get_neighbors b g' = Inr ms \<and>
               (a \<in> set ms \<longleftrightarrow> (\<exists>ms0. get_neighbors b g = Inr ms0 \<and> a \<in> set ms0))))"
proof -
  have va: "validate_node a False g = Inr ()" and vb: "validate_node b False g = Inr ()"
    using assms by (simp_all add: valid_node)
  have old: "(\<exists>ms0. get_neighbors b g = Inr ms0 \<and> a \<in> set ms0) \<longleftrightarrow>
             (\<exists>ms0. map_of g b = Some ms0 \<and> a \<in> set ms0)"
    using assms(3,4) by (simp add: get_neighbors_valid split: option.splits)
  have n1: "\<exists>ns. get_neighbors a (add_edge_result a b bidirectional g) = Inr ns \<and> b \<in> set ns"
    for bidirectional
    using lookup_result_from [OF va vb assms(5), of bidirectional] assms(1,2)
    by (auto simp: get_neighbors_valid)
  have n2: "\<exists>ms. get_neighbors b (add_edge_result a b bidirectional g) = Inr ms \<and>
      (a \<in> set ms \<longleftrightarrow> bidirectional \<or> (\<exists>ms0. get_neighbors b g = Inr ms0 \<and> a \<in> set ms0))"
    for bidirectional
    unfolding old
    using lookup_result_to [OF va vb assms(5), of bidirectional] assms(3,4)
    by (auto simp: get_neighbors_valid)
  show ?thesis
    using n1 [of True] n1 [of False] n2 [of True] n2 [of False]
    by (simp add: add_edge_ok [OF va vb assms(5)])
qed

theorem add_edge_links_witness:
  "(\<exists>g'. add_edge (Some ''a'') (Some ''b'') True [] = (Inr (), g') \<and>
      (\<exists>ns. get_neighbors (Some ''a'') g' = Inr ns \<and> Some ''b'' \<in> set ns) \<and>
      (\<exists>ms. get_neighbors (Some ''b'') g' = Inr ms \<and> Some ''a'' \<in> set ms)) \<and>
   (\<exists>g'. add_edge (Some ''a'') (Some ''b'') False [] = (Inr (), g') \<and>
      (\<exists>ns. get_neighbors (Some ''a'') g' = Inr ns \<and> Some ''b'' \<in> set ns) \<and>
      (\<exists>ms. get_neighbors (Some ''b'') g' = Inr ms \<and>
         (Some ''a'' \<in> set ms \<longleftrightarrow>
            (\<exists>ms0. get_neighbors (Some ''b'') [] = Inr ms0 \<and> Some ''a'' \<in> set ms0))))"
proof -
  have a: "strip ''a'' \<noteq> []" and b: "strip ''b'' \<noteq> []" by code_simp+
  have ab: "Some ''a'' \<noteq> Some ''b''" by simp
  show ?thesis by (rule add_edge_links [OF refl a refl b ab])
qed

lemma count_list_distinct: "distinct xs \<Longrightarrow> x \<in> set xs \<Longrightarrow> count_list xs x = 1"
  by (induction xs) auto

lemma add_if_missing_noop: "n \<in> set (keys g) \<Longrightarrow> add_if_missing n g = (Inr (), g)"
  by (simp add: add_if_missing_def)

lemma append_if_absent_noop:
  "map_of g x = Some ns \<Longrightarrow> y \<in> set ns \<Longrightarrow> append_if_absent x y g = (Inr (), g)"
  by (simp add: append_if_absent_def)

lemma add_edge_result_noop:
  assumes "a \<in> set (keys r)" "b \<in> set (keys r)"
    and "append_if_absent a b r = (Inr (), r)"
    and "bidirectional \<Longrightarrow> append_if_absent b a r = (Inr (), r)"
  shows "add_edge_result a b bidirectional r = r"
  using assms by (cases bidirectional) (simp_all add: add_edge_result_def Let_def add_if_missing_noop)

lemma add_edge_result_again:
  assumes va: "validate_node a False g = Inr ()" and vb: "validate_node b False g = Inr ()"
    and ab: "a \<noteq> b"
  shows "add_edge_result a b bidirectional (add_edge_result a b bidirectional g) =
         add_edge_result a b bidirectional g"
proof -
  let ?r = "add_edge_result a b bidirectional g"
  obtain ns where ns: "map_of ?r a = Some ns" "b \<in> set ns"
    using lookup_result_from [OF va vb ab, of bidirectional] by blast
  obtain ms where ms: "map_of ?r b = Some ms" "bidirectional \<Longrightarrow> a \<in> set ms"
    using lookup_result_to [OF va vb ab, of bidirectional] by blast
  have ka: "a \<in> set (keys ?r)" and kb: "b \<in> set (keys ?r)"
    using ns(1) ms(1) by (simp_all add: keys_iff_map_of)
  have 3: "append_if_absent a b ?r = (Inr (), ?r)" using ns by (rule append_if_absent_noop)
  have 4: "bidirectional \<Longrightarrow> append_if_absent b a ?r = (Inr (), ?r)"
    using ms by (simp add: append_if_absent_noop)
  show ?thesis using ka kb 3 4 by (rule add_edge_result_noop)
qed

text \<open>
  Claim C8. Let \<open>a\<close> and \<open>b\<close> be different non-blank identities, in a graph built
  by any session. \<^verbatim>\<open>add_edge(a, b)\<close> succeeds; the same call again, with the same flag,
  succeeds too and leaves the dictionary as the first call left it; and the neighbors of
  \<open>a\<close> then hold \<open>b\<close> exactly once.
\<close>

theorem add_edge_twice:
  assumes "a = Some s" "strip s \<noteq> []" "b = Some t" "strip t \<noteq> []" "a \<noteq> b"
  shows "\<exists>g' ns. add_edge a b bidirectional (run ops) = (Inr (), g') \<and>
           add_edge a b bidirectional g' = (Inr (), g') \<and>
           get_neighbors a g' = Inr ns \<and> count_list ns b = 1"
proof -
  let ?g = "run ops"
  let ?r = "add_edge_result a b bidirectional ?g"
  have va: "validate_node a False g' = Inr ()" and vb: "validate_node b False g' = Inr ()" for g'
    using assms by (simp_all add: valid_node)
  have first: "add_edge a b bidirectional ?g = (Inr (), ?r)"
    using va vb assms(5) by (rule add_edge_ok)
  have second: "add_edge a b bidirectional ?r = (Inr (), ?r)"
    using add_edge_ok [where g = ?r and bidirectional = bidirectional, OF va vb assms(5)]
      add_edge_result_again [where g = ?g and bidirectional = bidirectional, OF va vb assms(5)]
    by simp
  obtain ns where ns: "map_of ?r a = Some ns" "b \<in> set ns"
    using lookup_result_from [where g = ?g and bidirectional = bidirectional, OF va vb assms(5)]
    by blast
  have "wf_graph ?r"
    using wf_graph_add_edge [OF wf_graph_run, of a b bidirectional ops] first by simp
  from wf_graphD [OF this ns(1)] have "distinct ns" by simp
  then have "count_list ns b = 1" using ns(2) by (rule count_list_distinct)
  moreover have "get_neighbors a ?r = Inr ns"
    using assms(1,2) ns(1) by (simp add: get_neighbors_valid)
  ultimately show ?thesis using first second by blast
qed

theorem add_edge_twice_witness:
  "\<exists>g' ns. add_edge (Some ''a'') (Some ''b'') False
              (run [Add_edge (Some ''b'') (Some ''a'') True, Add_node (Some ''c'')]) = (Inr (), g') \<and>
           add_edge (Some ''a'') (Some ''b'') False g' = (Inr (), g') \<and>
           get_neighbors (Some ''a'') g' = Inr ns \<and> count_list ns (Some ''b'') = 1"
proof -
  have a: "strip ''a'' \<noteq> []" and b: "strip ''b'' \<noteq> []" by code_simp+
  have ab: "Some ''a'' \<noteq> Some ''b''" by simp
  show ?thesis by (rule add_edge_twice [OF refl a refl b ab])
qed

lemma entries_after_remove:
  "set (AList.delete n (remove_from_lists n g)) =
     (\<lambda>(k, ns). (k, remove1 n ns)) ` {(k, ns). (k, ns) \<in> set g \<and> k \<noteq> n}"
proof -
  have "remove_from_lists n g = map (\<lambda>(k, ns). (k, remove1 n ns)) g"
    by (auto simp: remove_from_lists_def remove1_idem)
  then show ?thesis
    by (force simp: AList.delete_eq)
qed

lemma remove_node_missing:
  "n \<notin> get_nodes g \<Longrightarrow> \<exists>m. remove_node n g = (Inl (NodeError m), g)"
  by (auto simp: remove_node_def validate_node_def get_nodes_def split: option.splits)

lemma remove_node_present:
  assumes "valid_keys g" "n \<in> get_nodes g"
  shows "remove_node n g = (Inr (), AList.delete n (remove_from_lists n g))"
proof -
  have "validate_node n False g = Inr ()"
    using assms by (simp add: valid_keysD get_nodes_def)
  then have "validate_node n True g = Inr ()"
    using assms(2) by (auto simp: validate_node_def get_nodes_def split: option.splits if_splits)
  then show ?thesis by (simp add: remove_node_def)
qed

text \<open>
  Claim C7. In a graph built by any session: \<^verbatim>\<open>remove_node(n)\<close> fails with a
  \<^verbatim>\<open>NodeError\<close>, changing nothing, if \<open>n\<close> is not a node. If \<open>n\<close> is a node the call
  succeeds; afterwards \<^verbatim>\<open>search_node(n)\<close> is false, the nodes are the former ones
  without \<open>n\<close>, no neighbor list holds \<open>n\<close>, and the entry of every other node is its
  former neighbor list with \<open>n\<close> taken out.
\<close>

theorem remove_node_outcome:
  "(n \<notin> get_nodes (run ops) \<longrightarrow>
      (\<exists>m. remove_node n (run ops) = (Inl (NodeError m), run ops))) \<and>
   (n \<in> get_nodes (run ops) \<longrightarrow>
      (\<exists>g'. remove_node n (run ops) = (Inr (), g') \<and>
         search_node n g' = Inr False \<and>
         get_nodes g' = get_nodes (run ops) - {n} \<and>
         (\<forall>(k, ns) \<in> set g'. n \<notin> set ns) \<and>
         (\<forall>(k, ns) \<in> set (run ops). k \<noteq> n \<longrightarrow> (k, removeAll n ns) \<in> set g')))"
proof (intro conjI impI)
  assume "n \<notin> get_nodes (run ops)"
  then show "\<exists>m. remove_node n (run ops) = (Inl (NodeError m), run ops)"
    by (rule remove_node_missing)
next
  assume n: "n \<in> get_nodes (run ops)"
  let ?g = "run ops"
  let ?g' = "AList.delete n (remove_from_lists n ?g)"
  have d: "distinct ns" if "(k, ns) \<in> set ?g" for k ns
    using wf_graphD [OF wf_graph_run entry_lookup [OF wf_graph_run that]] by simp
  have 1: "remove_node n ?g = (Inr (), ?g')"
    using valid_keys_run n by (rule remove_node_present)
  have nodes: "get_nodes ?g' = get_nodes ?g - {n}"
    by (simp add: get_nodes_def keys_after_remove)
  have "n \<notin> get_nodes ?g'" by (simp add: nodes)
  then have 2: "search_node n ?g' = Inr False"
    by (cases n) (simp_all add: search_node_eq)
  have 3: "\<forall>(k, ns) \<in> set ?g'. n \<notin> set ns"
    using d by (auto simp: entries_after_remove)
  have 4: "\<forall>(k, ns) \<in> set ?g. k \<noteq> n \<longrightarrow> (k, removeAll n ns) \<in> set ?g'"
  proof clarify
    fix k ns assume e: "(k, ns) \<in> set ?g" "k \<noteq> n"
    have "remove1 n ns = removeAll n ns" using d [OF e(1)] by (simp add: distinct_remove1_removeAll)
    moreover have "(k, remove1 n ns) \<in> set ?g'"
      using e unfolding entries_after_remove by force
    ultimately show "(k, removeAll n ns) \<in> set ?g'" by simp
  qed
  show "\<exists>g'. remove_node n ?g = (Inr (), g') \<and> search_node n g' = Inr False \<and>
         get_nodes g' = get_nodes ?g - {n} \<and> (\<forall>(k, ns) \<in> set g'. n \<notin> set ns) \<and>
         (\<forall>(k, ns) \<in> set ?g. k \<noteq> n \<longrightarrow> (k, removeAll n ns) \<in> set g')"
    using 1 2 nodes 3 4 by blast
qed

theorem remove_node_outcome_witness:
  "(\<exists>m. remove_node (Some ''z'')
          (run [Add_edge (Some ''a'') (Some ''b'') True, Add_edge (Some ''c'') (Some ''a'') False]) =
        (Inl (NodeError m),
         run [Add_edge (Some ''a'') (Some ''b'') True, Add_edge (Some ''c'') (Some ''a'') False])) \<and>
   (\<exists>g'. remove_node (Some ''a'')
          (run [Add_edge (Some ''a'') (Some ''b'') True, Add_edge (Some ''c'') (Some ''a'') False]) =
        (Inr (), g') \<and>
      search_node (Some ''a'') g' = Inr False \<and>
      get_nodes g' =
        get_nodes (run [Add_edge (Some ''a'') (Some ''b'') True, Add_edge (Some ''c'') (Some ''a'') False])
          - {Some ''a''} \<and>
      (\<forall>(k, ns) \<in> set g'. Some ''a'' \<notin> set ns) \<and>
      (\<forall>(k, ns) \<in> set (run [Add_edge (Some ''a'') (Some ''b'') True,
                                  Add_edge (Some ''c'') (Some ''a'') False]).
          k \<noteq> Some ''a'' \<longrightarrow> (k, removeAll (Some ''a'') ns) \<in> set g'))"
proof -
  let ?ops = "[Add_edge (Some ''a'') (Some ''b'') True, Add_edge (Some ''c'') (Some ''a'') False]"
  have z: "Some ''z'' \<notin> get_nodes (run ?ops)" by code_simp
  have a: "Some ''a'' \<in> get_nodes (run ?ops)" by code_simp
  from remove_node_outcome [of "Some ''z''" ?ops] remove_node_outcome [of "Some ''a''" ?ops] z a
  show ?thesis by blast
qed

section \<open>The claims about the matrix\<close>

lemma validate_rows_Inr:
  "validate_rows n i rows = Inr () \<longleftrightarrow> (\<forall>row \<in> set rows. length row = n \<and> set row \<subseteq> {0, 1})"
  by (induction rows arbitrary: i) (auto simp: list_all_iff)

lemma validate_matrix_Inr:
  "validate_matrix matrix = Inr () \<longleftrightarrow>
     matrix \<noteq> [] \<and> (\<forall>row \<in> set matrix. length row = length matrix \<and> set row \<subseteq> {0, 1})"
  by (simp add: validate_matrix_def validate_rows_Inr)

lemma column_sum_in_range:
  "\<forall>j \<in> set js. j < length matrix \<and> i < length (matrix ! j) \<Longrightarrow>
   column_sum matrix i js acc = Inr (acc + sum_list (map (\<lambda>j. matrix ! j ! i) js))"
  by (induction js arbitrary: acc) (simp_all add: cell_at_def row_at_def)

lemma degrees_loop_all:
  "\<forall>i \<in> set is. degree_at matrix directed n i = Inr (d i) \<Longrightarrow> distinct is \<Longrightarrow>
   set is \<inter> fst ` set degrees = {} \<Longrightarrow>
   degrees_loop matrix directed n is degrees = Inr (degrees @ map (\<lambda>i. (i, d i)) is)"
proof (induction "is" arbitrary: degrees)
  case Nil
  then show ?case by simp
next
  case (Cons i rest)
  have fresh: "i \<notin> set (map fst degrees)" using Cons.prems(3) by auto
  have step: "AList.update i (d i) degrees = degrees @ [(i, d i)]"
    using fresh by (rule update_fresh)
  have "set rest \<inter> fst ` set (degrees @ [(i, d i)]) = {}"
    using Cons.prems(2,3) by auto
  with Cons.IH [of "degrees @ [(i, d i)]"] Cons.prems(1,2)
  have "degrees_loop matrix directed n rest (degrees @ [(i, d i)]) =
        Inr ((degrees @ [(i, d i)]) @ map (\<lambda>i. (i, d i)) rest)" by simp
  then show ?case using Cons.prems(1) step by simp
qed

lemma square_degree_at:
  assumes sq: "\<forall>row \<in> set matrix. length row = length matrix" and i: "i < length matrix"
  shows "degree_at matrix False (length matrix) i = Inr (Degree (sum_list (matrix ! i)))"
    and "degree_at matrix True (length matrix) i =
         Inr (In_out (sum_list (map (\<lambda>j. matrix ! j ! i) [0..<length matrix])) (sum_list (matrix ! i)))"
proof -
  show "degree_at matrix False (length matrix) i = Inr (Degree (sum_list (matrix ! i)))"
    using i by (simp add: degree_at_def row_at_def)
  have "\<forall>j \<in> set [0..<length matrix]. j < length matrix \<and> i < length (matrix ! j)"
    using sq i by simp
  from column_sum_in_range [OF this, of 0]
  show "degree_at matrix True (length matrix) i =
         Inr (In_out (sum_list (map (\<lambda>j. matrix ! j ! i) [0..<length matrix])) (sum_list (matrix ! i)))"
    using i by (simp add: degree_at_def row_at_def)
qed

text \<open>
  Claim C5, as stated, is about every square matrix with cells in \<open>{0, 1}\<close>. The matrix
  without rows is one (it has no row of a wrong length and no cell), and
  \<^verbatim>\<open>calculate_degrees\<close> rejects it: the validation raises "Matrix cannot be empty".
\<close>

theorem calculate_degrees_empty_counterexample:
  "calculate_degrees [] False = Inl (InvalidMatrixError Matrix_cannot_be_empty) \<and>
   calculate_degrees [] True = Inl (InvalidMatrixError Matrix_cannot_be_empty)"
  by (simp add: calculate_degrees_def validate_matrix_def)

text \<open>
  Claim C5, amended. For every matrix that has at least one row, is square and has all
  cells in \<open>{0, 1}\<close>: \<^verbatim>\<open>calculate_degrees(matrix, directed=False)\<close> maps every index
  \<open>i\<close>, in increasing order, to the sum of row \<open>i\<close>;
  \<^verbatim>\<open>calculate_degrees(matrix, directed=True)\<close> maps it to the in-degree, the sum of
  column \<open>i\<close>, and the out-degree, the sum of row \<open>i\<close>. The two matrices of the
  specification give the results stated there.
\<close>

theorem calculate_degrees_sums:
  assumes "matrix \<noteq> []"
    and "\<forall>row \<in> set matrix. length row = length matrix \<and> set row \<subseteq> {0, 1}"
  shows "calculate_degrees matrix False =
           Inr (map (\<lambda>i. (i, Degree (sum_list (matrix ! i)))) [0..<length matrix]) \<and>
         calculate_degrees matrix True =
           Inr (map (\<lambda>i. (i, In_out (sum_list (map (\<lambda>j. matrix ! j ! i) [0..<length matrix]))
                                     (sum_list (matrix ! i))))
                  [0..<length matrix]) \<and>
         calculate_degrees [[0, 1], [0, 0]] True = Inr [(0, In_out 0 1), (1, In_out 1 0)] \<and>
         calculate_degrees [[0, 1], [1, 0]] False = Inr [(0, Degree 1), (1, Degree 1)]"
proof (intro conjI)
  have v: "validate_matrix matrix = Inr ()"
    using assms by (simp add: validate_matrix_Inr)
  have sq: "\<forall>row \<in> set matrix. length row = length matrix" using assms(2) by blast
  have u: "degrees_loop matrix False (length matrix) [0..<length matrix] [] =
        Inr ([] @ map (\<lambda>i. (i, Degree (sum_list (matrix ! i)))) [0..<length matrix])"
    by (rule degrees_loop_all) (simp_all add: square_degree_at(1) [OF sq])
  show "calculate_degrees matrix False =
           Inr (map (\<lambda>i. (i, Degree (sum_list (matrix ! i)))) [0..<length matrix])"
    using v u by (simp add: calculate_degrees_def)
  have d: "degrees_loop matrix True (length matrix) [0..<length matrix] [] =
        Inr ([] @ map (\<lambda>i. (i, In_out (sum_list (map (\<lambda>j. matrix ! j ! i) [0..<length matrix]))
                                     (sum_list (matrix ! i)))) [0..<length matrix])"
    by (rule degrees_loop_all) (simp_all add: square_degree_at(2) [OF sq])
  show "calculate_degrees matrix True =
           Inr (map (\<lambda>i. (i, In_out (sum_list (map (\<lambda>j. matrix ! j ! i) [0..<length matrix]))
                                     (sum_list (matrix ! i))))
                  [0..<length matrix])"
    using v d by (simp add: calculate_degrees_def)
  show "calculate_degrees [[0, 1], [0, 0]] True = Inr [(0, In_out 0 1), (1, In_out 1 0)]"
    by code_simp
  show "calculate_degrees [[0, 1], [1, 0]] False = Inr [(0, Degree 1), (1, Degree 1)]"
    by code_simp
qed

theorem calculate_degrees_sums_witness:
  "calculate_degrees [[0, 1, 1], [0, 0, 1], [1, 0, 0]] False =
     Inr [(0, Degree 2), (1, Degree 1), (2, Degree 1)] \<and>
   calculate_degrees [[0, 1, 1], [0, 0, 1], [1, 0, 0]] True =
     Inr [(0, In_out 1 2), (1, In_out 1 1), (2, In_out 2 1)]"
proof -
  let ?m = "[[0, 1, 1], [0, 0, 1], [1, 0, 0]] :: matrix"
  have h1: "?m \<noteq> []" by simp
  have h2: "\<forall>row \<in> set ?m. length row = length ?m \<and> set row \<subseteq> {0, 1}" by simp
  from calculate_degrees_sums [OF h1 h2] show ?thesis
    by (simp add: numeral_2_eq_2)
qed

text \<open>
  The validation raises nothing but \<^verbatim>\<open>InvalidMatrixError\<close>, and the loader turns it
  into the "Error reading file" \<^verbatim>\<open>FileReadError\<close>.
\<close>

lemma validate_rows_error:
  "validate_rows n i rows = Inl e \<Longrightarrow> \<exists>msg. e = InvalidMatrixError msg"
  by (induction rows arbitrary: i) (auto split: if_splits)

lemma validate_matrix_error:
  "validate_matrix matrix = Inl e \<Longrightarrow> \<exists>msg. e = InvalidMatrixError msg"
  by (auto simp: validate_matrix_def split: if_splits dest: validate_rows_error)

lemma load_wraps_validation_error:
  assumes "file_system file_path = Text contents"
    and "read_lines 1 (file_lines [] contents) [] = Inr matrix"
    and "validate_matrix matrix = Inl e"
  shows "load_adjacency_matrix file_system file_path = Inl (FileReadError (Error_reading_file e))"
proof -
  obtain msg where "e = InvalidMatrixError msg"
    using validate_matrix_error [OF assms(3)] by blast
  then show ?thesis
    using assms by (simp add: load_adjacency_matrix_def load_body_def)
qed

text \<open>
  Claim C1 asks \<^verbatim>\<open>load_adjacency_matrix\<close> to pass on the \<^verbatim>\<open>InvalidMatrixError\<close> of
  \<^verbatim>\<open>validate_matrix\<close> unchanged. The file with the two lines \<^verbatim>\<open>0 1\<close> and \<^verbatim>\<open>1\<close>
  parses into the rows \<open>[0, 1]\<close> and \<open>[1]\<close>, the validation raises "Row 1 has incorrect
  length", and the call ends with a \<^verbatim>\<open>FileReadError\<close> that quotes it.
\<close>

theorem load_rewraps_invalid_matrix:
  "read_lines 1 (file_lines [] (''0 1'' @ [CHR 0x0A] @ ''1'')) [] = Inr [[0, 1], [1]] \<and>
   validate_matrix [[0, 1], [1]] = Inl (InvalidMatrixError (Row_has_incorrect_length 1 1 2)) \<and>
   load_adjacency_matrix (\<lambda>path. Text (''0 1'' @ [CHR 0x0A] @ ''1'')) ''matrix.txt'' =
     Inl (FileReadError (Error_reading_file (InvalidMatrixError (Row_has_incorrect_length 1 1 2))))"
proof -
  have r: "read_lines 1 (file_lines [] (''0 1'' @ [CHR 0x0A] @ ''1'')) [] = Inr [[0, 1], [1]]"
    by code_simp
  have v: "validate_matrix [[0, 1], [1]] = Inl (InvalidMatrixError (Row_has_incorrect_length 1 1 2))"
    by code_simp
  from load_wraps_validation_error
    [where file_system = "\<lambda>path. Text (''0 1'' @ [CHR 0x0A] @ ''1'')" and file_path = "''matrix.txt''"
       and contents = "''0 1'' @ [CHR 0x0A] @ ''1''", OF _ r v] r v
  show ?thesis by simp
qed

end
